theory Spec2Isabelle
  imports Complex_Main
begin

section \<open>Values, errors and template nodes\<close>

text \<open>
  The plugin is an adapter between a templating library and a host application. The
  embedding keeps the plugin's own code as HOL functions and takes what the library, the
  host and the operating system answer as inputs.

  File paths and template names are Python strings.
\<close>

type_synonym path = string

text \<open>
  The values a constant of a template can have: \<open>None\<close>, a boolean, an integer, a
  float or a string. A float literal denotes a non-negative finite number or, when it is
  too large for a double, infinity.
\<close>

datatype pyfloat = Finite rat | Infinity

datatype pyval = PNone | PBool bool | PInt int | PFloat pyfloat | PStr string

text \<open>Python's truth value of a constant, as \<open>not template_only\<close> tests it.\<close>

fun truthy :: "pyval \<Rightarrow> bool" where
  "truthy PNone = False"
| "truthy (PBool b) = b"
| "truthy (PInt i) = (i \<noteq> 0)"
| "truthy (PFloat (Finite q)) = (q \<noteq> 0)"
| "truthy (PFloat Infinity) = True"
| "truthy (PStr s) = (s \<noteq> [])"

text \<open>
  What can be raised while the plugin runs: by the operating system (opening, reading,
  creating directories, writing), by the library's parser and compiler, by the library's
  renderer, and by the attribute access \<open>value.value\<close> on a node without that attribute.
\<close>

datatype error = OSError | TemplateSyntaxError | TemplateError | AttributeError

text \<open>
  The nodes of the library's syntax tree that the plugin inspects: \<open>Name(name, ctx)\<close>,
  \<open>Const(value)\<close>, \<open>Assign(target, node)\<close> and \<open>Call(node, args, kwargs, dyn_args,
  dyn_kwargs)\<close>. Every other node type is \<open>Other\<close> with its child nodes in the order
  in which the library iterates over them. For a call, the third component holds the
  child nodes that follow the positional arguments (keyword arguments and the two dynamic
  argument expressions). Line numbers are not kept: no function of the plugin reads them.
\<close>

datatype name_ctx = Load | Store | Param

datatype node =
    Name (node_name: string) (node_ctx: name_ctx)
  | Const (node_value: pyval)
  | Assign (node_target: node) (node_node: node)
  | Call (node_node: node) (node_args: "node list") (node_kwargs: "node list")
  | Other (node_children: "node list")

text \<open>The root of a parsed template is a \<open>Template\<close> node holding the body.\<close>

datatype template = Template (body: "node list")

text \<open>
  \<open>Node.iter_child_nodes\<close> and \<open>Node.find_all\<close> of the library: the child nodes in
  field order, and a depth-first walk that yields every descendant of the wanted type,
  a node before its own descendants. The node the walk starts from is not yielded.
\<close>

fun iter_child_nodes :: "node \<Rightarrow> node list" where
  "iter_child_nodes (Name n c) = []"
| "iter_child_nodes (Const v) = []"
| "iter_child_nodes (Assign t e) = [t, e]"
| "iter_child_nodes (Call f as ks) = f # as @ ks"
| "iter_child_nodes (Other cs) = cs"

lemma iter_child_nodes_size:
  "c \<in> set (iter_child_nodes n) \<Longrightarrow> size c < size n"
proof (cases n)
  case (Call f as ks)
  assume "c \<in> set (iter_child_nodes n)"
  with Call consider "c = f" | "c \<in> set as" | "c \<in> set ks" by auto
  then show ?thesis
  proof cases
    case 1
    with Call show ?thesis by simp
  next
    case 2
    then have "size c \<le> size_list size as" by (simp add: size_list_estimation')
    with Call show ?thesis by simp
  next
    case 3
    then have "size c \<le> size_list size ks" by (simp add: size_list_estimation')
    with Call show ?thesis by simp
  qed
next
  case (Other cs)
  assume "c \<in> set (iter_child_nodes n)"
  with Other have "size c \<le> size_list size cs" by (simp add: size_list_estimation')
  with Other show ?thesis by simp
qed auto

function find_all :: "(node \<Rightarrow> bool) \<Rightarrow> node \<Rightarrow> node list" where
  "find_all P n =
     concat (map (\<lambda>child. (if P child then [child] else []) @ find_all P child)
                 (iter_child_nodes n))"
  by pat_completeness auto
termination
  by (relation "measure (\<lambda>(P, n). size n)") (auto simp: iter_child_nodes_size)

declare find_all.simps [simp del]

definition template_find_all :: "(node \<Rightarrow> bool) \<Rightarrow> template \<Rightarrow> node list" where
  "template_find_all P t =
     concat (map (\<lambda>child. (if P child then [child] else []) @ find_all P child) (body t))"

section \<open>The two syntax-tree scans of the processor\<close>

text \<open>
  \<open>JinjaProcessor._get_const_vars\<close>: a dictionary from variable names to constants,
  filled by a loop over the assignment nodes; a later assignment to a name replaces an
  earlier one.
\<close>

definition const_vars_step :: "(string \<rightharpoonup> pyval) \<Rightarrow> node \<Rightarrow> (string \<rightharpoonup> pyval)" where
  "const_vars_step const_vars n =
     (if is_Name (node_target n) \<and> is_Const (node_node n)
      then const_vars(node_name (node_target n) \<mapsto> node_value (node_node n))
      else const_vars)"

definition get_const_vars :: "template \<Rightarrow> (string \<rightharpoonup> pyval)" where
  "get_const_vars ast = foldl const_vars_step Map.empty (template_find_all is_Assign ast)"

text \<open>
  \<open>JinjaProcessor._get_context_requests\<close>: the list of argument pairs of the calls
  that look like \<open>getcontexts("name", "value")\<close>, appended in the order of the walk.
\<close>

definition context_requests_step :: "(pyval \<times> pyval) list \<Rightarrow> node \<Rightarrow> (pyval \<times> pyval) list" where
  "context_requests_step context_requests n =
     (if is_Name (node_node n) \<and> length (node_args n) = 2 \<and>
         is_Const (node_args n ! 0) \<and> is_Const (node_args n ! 1)
      then context_requests @ [(node_value (node_args n ! 0), node_value (node_args n ! 1))]
      else context_requests)"

definition get_context_requests :: "template \<Rightarrow> (pyval \<times> pyval) list" where
  "get_context_requests ast = foldl context_requests_step [] (template_find_all is_Call ast)"

section \<open>Processor state, host and environment\<close>

text \<open>
  A Python dictionary iterates in insertion order, and storing under a key that is
  already present keeps the key's place. \<open>_set_contexts\<close> is iterated, so it is an
  association list with that discipline.
\<close>

fun dict_set :: "'k \<Rightarrow> 'v \<Rightarrow> ('k \<times> 'v) list \<Rightarrow> ('k \<times> 'v) list" where
  "dict_set k v [] = [(k, v)]"
| "dict_set k v ((k', v') # kvs) =
     (if k' = k then (k, v) # kvs else (k', v') # dict_set k v kvs)"

text \<open>
  The host application is outside the repository. What the plugin does to it is the
  sequence of the registering calls it makes; what it asks of it is answered by the
  environment below. Host calls are taken to return normally.
\<close>

datatype host_call =
    SetTargets path "path list"
  | SetDependencies path "path list"
  | ClearDependencies path
  | AddDependency path pyval pyval
  | RemoveContext path
  | SetContext path string pyval

text \<open>
  The filesystem is changed by \<open>os.makedirs(d, exist_ok=True)\<close>, by opening a file for
  writing (which creates or truncates it) and by writing the text. A call that raises is
  taken to leave the filesystem as it was.
\<close>

datatype fs_op = Makedirs path | OpenW path | Write path string

text \<open>
  The state: the three attributes that \<open>JinjaProcessor.__init__\<close> sets up
  (\<open>_generate\<close>, \<open>_set_contexts\<close>, \<open>current_path\<close>), the calls made to the host so
  far, and the changes made to the filesystem so far.
\<close>

record world =
  generate_dict :: "path \<rightharpoonup> path \<times> template"
  set_contexts :: "(string \<times> pyval) list"
  current_path :: "path option"
  host_calls :: "host_call list"
  fs_ops :: "fs_op list"

definition init_world :: world where
  "init_world =
     \<lparr>generate_dict = Map.empty, set_contexts = [], current_path = None,
      host_calls = [], fs_ops = []\<rparr>"

text \<open>A method either returns or raises; the state it leaves is kept in both cases.\<close>

datatype outcome = Returned world | Raised error world

definition host_call :: "host_call \<Rightarrow> world \<Rightarrow> world" where
  "host_call c w = w\<lparr>host_calls := host_calls w @ [c]\<rparr>"

definition fs_op :: "fs_op \<Rightarrow> world \<Rightarrow> world" where
  "fs_op c w = w\<lparr>fs_ops := fs_ops w @ [c]\<rparr>"

text \<open>
  A \<open>setcontext\<close> tag as the parser's token stream presents it to the extension, after
  the tag's own token: \<open>tag_name\<close> is the value of the next token when that is a name
  (\<open>expect('name')\<close> raises otherwise); \<open>tag_assign\<close> is \<open>None\<close> when the token after
  the name is not an assignment sign, and otherwise what \<open>parser.parse_expression()\<close>
  gives on the tokens behind the sign, a syntax error or an expression node.
\<close>

record setcontext_tag =
  tag_name :: "string option"
  tag_assign :: "(error + node) option"

text \<open>
  A run of the library's parser over a text, with the extension installed: the
  \<open>setcontext\<close> tags it reaches, in source order, and what it does after the last of
  them, given the nodes the extension returned for each tag: raise, or build its result
  (a syntax error behind the k-th tag is a run with k tags whose \<open>finish\<close> raises).
  \<open>Environment.parse\<close> builds a template node; \<open>Environment.from_string\<close> parses in
  the same way and builds a compiled template.
\<close>

record 'a parse_run =
  tags :: "setcontext_tag list"
  finish :: "node list list \<Rightarrow> error + 'a"

text \<open>
  The render context is a dictionary from variable names to a string, a list of strings
  or a value of the host. Rendering a compiled template may load the templates it refers
  to, which parses them: \<open>loaded_tags\<close> are the \<open>setcontext\<close> tags met on the way.
\<close>

datatype ctxval = Str string | StrList "string list" | Val pyval

type_synonym render_context = "(string \<times> ctxval) list"

record render_run =
  loaded_tags :: "setcontext_tag list"
  rendered :: "error + string"

type_synonym compiled = "render_context \<Rightarrow> render_run"

text \<open>The host's record of a source file, of which the plugin reads two fields.\<close>

record source =
  source_size :: pyval
  source_modified :: pyval

text \<open>
  The environment of a call: the answers of the operating system, of the templating
  library and of the host at the time of the call. \<open>get_targets\<close> gives the paths of the
  file's targets in the order in which the host's collection iterates;
  \<open>find_referenced_templates\<close> yields \<open>None\<close> for a reference that is not a constant.
\<close>

record env =
  open_read :: "path \<Rightarrow> error + string"
  env_parse :: "string \<Rightarrow> template parse_run"
  env_from_string :: "string \<Rightarrow> compiled parse_run"
  find_referenced_templates :: "template \<Rightarrow> string option list"
  app_target_path :: "path \<Rightarrow> path"
  app_source_path :: "string option \<Rightarrow> path"
  app_relative_path :: "path \<Rightarrow> path"
  get_source :: "path \<Rightarrow> source option"
  get_targets :: "path \<Rightarrow> path list"
  os_makedirs :: "path \<Rightarrow> error option"
  open_write :: "path \<Rightarrow> error option"
  fh_write :: "path \<Rightarrow> string \<Rightarrow> error option"

text \<open>\<open>os.path.dirname\<close> on a POSIX path.\<close>

definition dirname :: "path \<Rightarrow> path" where
  "dirname p =
     (let head = rev (dropWhile (\<lambda>c. c \<noteq> CHR ''/'') (rev p))
      in if head \<noteq> [] \<and> head \<noteq> replicate (length head) (CHR ''/'')
         then rev (dropWhile (\<lambda>c. c = CHR ''/'') (rev head))
         else head)"

section \<open>The extension and the processor\<close>

text \<open>\<open>JinjaProcessor.add_set_context\<close>.\<close>

definition add_set_context :: "string \<Rightarrow> pyval \<Rightarrow> world \<Rightarrow> world" where
  "add_set_context n v w = w\<lparr>set_contexts := dict_set n v (set_contexts w)\<rparr>"

text \<open>
  \<open>SetContextExtension.parse\<close>. The source returns one node or the empty list; the
  library appends a node to the body and splices a list into it, so the node is returned
  as a list of one. Only a constant has the attribute \<open>value\<close>.
\<close>

definition SetContextExtension_parse ::
  "setcontext_tag \<Rightarrow> world \<Rightarrow> (error + node list) \<times> world" where
  "SetContextExtension_parse tag w =
     (case tag_name tag of
        None \<Rightarrow> (Inl TemplateSyntaxError, w)
      | Some n \<Rightarrow>
          (case tag_assign tag of
             None \<Rightarrow> (Inr [], w)
           | Some (Inl e) \<Rightarrow> (Inl e, w)
           | Some (Inr e) \<Rightarrow>
               (if is_Const e
                then (Inr [Assign (Name n Store) (Const (node_value e))],
                      add_set_context n (node_value e) w)
                else (Inl AttributeError, w))))"

text \<open>The library's parser calling the extension at each tag, until one raises.\<close>

fun run_tags :: "setcontext_tag list \<Rightarrow> world \<Rightarrow> (error + node list list) \<times> world" where
  "run_tags [] w = (Inr [], w)"
| "run_tags (t # ts) w =
     (case SetContextExtension_parse t w of
        (Inl e, w1) \<Rightarrow> (Inl e, w1)
      | (Inr ns, w1) \<Rightarrow>
          (case run_tags ts w1 of
             (Inl e, w2) \<Rightarrow> (Inl e, w2)
           | (Inr nss, w2) \<Rightarrow> (Inr (ns # nss), w2)))"

definition run_parse :: "'a parse_run \<Rightarrow> world \<Rightarrow> (error + 'a) \<times> world" where
  "run_parse r w =
     (case run_tags (tags r) w of
        (Inl e, w1) \<Rightarrow> (Inl e, w1)
      | (Inr nss, w1) \<Rightarrow> (finish r nss, w1))"

definition run_render :: "render_run \<Rightarrow> world \<Rightarrow> (error + string) \<times> world" where
  "run_render r w =
     (case run_tags (loaded_tags r) w of
        (Inl e, w1) \<Rightarrow> (Inl e, w1)
      | (Inr nss, w1) \<Rightarrow> (rendered r, w1))"

text \<open>\<open>JinjaProcessor.can_process\<close>, with Python's \<open>str.endswith\<close>.\<close>

definition endswith :: "string \<Rightarrow> string \<Rightarrow> bool" where
  "endswith s suffix =
     (length suffix \<le> length s \<and> drop (length s - length suffix) s = suffix)"

definition can_process :: "path \<Rightarrow> bool" where
  "can_process path = endswith path ''.html''"

text \<open>\<open>JinjaProcessor.target_path\<close>.\<close>

definition target_path :: "env \<Rightarrow> path \<Rightarrow> path" where
  "target_path env path = app_target_path env path"

text \<open>
  \<open>JinjaProcessor.prepare\<close>. Reading and parsing the file can raise; everything after
  that is host calls and the two scans.
\<close>

definition prepare :: "env \<Rightarrow> path \<Rightarrow> world \<Rightarrow> outcome" where
  "prepare env path w =
     (if generate_dict w path \<noteq> None then Returned w
      else
        let w1 = w\<lparr>current_path := Some path, set_contexts := []\<rparr>;
            target = target_path env path
        in case open_read env path of
             Inl e \<Rightarrow> Raised e w1
           | Inr text \<Rightarrow>
               (case run_parse (env_parse env text) w1 of
                  (Inl e, w2) \<Rightarrow> Raised e w2
                | (Inr ast, w2) \<Rightarrow>
                    let w3 = host_call (SetTargets path [target]) w2;
                        w4 = host_call
                               (SetDependencies path
                                  (map (app_source_path env)
                                       (find_referenced_templates env ast))) w3;
                        consts = get_const_vars ast;
                        template_only =
                          (case consts ''template_only'' of
                             None \<Rightarrow> PBool False | Some v \<Rightarrow> v);
                        w5 = host_call (ClearDependencies path) w4;
                        w6 = foldl (\<lambda>w' (n, v). host_call (AddDependency path n v) w')
                                   w5 (get_context_requests ast);
                        w7 = host_call (RemoveContext path) w6;
                        w8 = foldl (\<lambda>w' (n, v). host_call (SetContext path n v) w')
                                   w7 (set_contexts w7)
                    in Returned
                         (if \<not> truthy template_only
                          then w8\<lparr>generate_dict := (generate_dict w8)(path \<mapsto> (target, ast))\<rparr>
                          else w8)))"

text \<open>
  \<open>JinjaProcessor.generate\<close>. The context dictionary is filled only when the host knows
  the source; its keys are distinct, so a list in insertion order is the dictionary.
\<close>

definition context_dict :: "env \<Rightarrow> path \<Rightarrow> render_context" where
  "context_dict env path =
     (case get_source env path of
        None \<Rightarrow> []
      | Some source \<Rightarrow>
          let targets = get_targets env path
          in (if length targets = 1
              then [(''url'', Str (CHR ''/'' # app_relative_path env (targets ! 0)))]
              else [])
             @ [(''urls'', StrList (map (\<lambda>t. CHR ''/'' # app_relative_path env t) targets)),
                (''size'', Val (source_size source)),
                (''modified'', Val (source_modified source))])"

definition generate :: "env \<Rightarrow> path \<Rightarrow> world \<Rightarrow> outcome" where
  "generate env path w =
     (case generate_dict w path of
        None \<Rightarrow> Returned w
      | Some (target, ast) \<Rightarrow>
          (case open_read env path of
             Inl e \<Rightarrow> Raised e w
           | Inr text \<Rightarrow>
               (case run_parse (env_from_string env text) w of
                  (Inl e, w1) \<Rightarrow> Raised e w1
                | (Inr template, w1) \<Rightarrow>
                    (case os_makedirs env (dirname target) of
                       Some e \<Rightarrow> Raised e w1
                     | None \<Rightarrow>
                         let w2 = fs_op (Makedirs (dirname target)) w1
                         in (case open_write env target of
                               Some e \<Rightarrow> Raised e w2
                             | None \<Rightarrow>
                                 let w3 = fs_op (OpenW target) w2
                                 in (case run_render (template (context_dict env path)) w3 of
                                       (Inl e, w4) \<Rightarrow> Raised e w4
                                     | (Inr out, w4) \<Rightarrow>
                                         (case fh_write env target out of
                                            Some e \<Rightarrow> Raised e w4
                                          | None \<Rightarrow>
                                              let w5 = fs_op (Write target out) w4
                                              in Returned
                                                   (w5\<lparr>generate_dict :=
                                                          (generate_dict w5)(path := None)\<rparr>))))))))"

section \<open>What the specification speaks of\<close>

text \<open>
  The nodes of a syntax tree in traversal order: a node, then the nodes of its children
  from first to last. The nodes of a template are the nodes of its body.
\<close>

fun subtree :: "node \<Rightarrow> node list" where
  "subtree (Name n c) = [Name n c]"
| "subtree (Const v) = [Const v]"
| "subtree (Assign t e) = Assign t e # subtree t @ subtree e"
| "subtree (Call f as ks) =
     Call f as ks # subtree f @ concat (map subtree as) @ concat (map subtree ks)"
| "subtree (Other cs) = Other cs # concat (map subtree cs)"

definition template_nodes :: "template \<Rightarrow> node list" where
  "template_nodes t = concat (map subtree (body t))"

text \<open>
  A context request: a call whose callee is a simple name and which has exactly two
  positional arguments, both constant. The requests of a template, in traversal order.
\<close>

fun context_request_of :: "node \<Rightarrow> (pyval \<times> pyval) option" where
  "context_request_of (Call (Name f c) [Const a, Const b] ks) = Some (a, b)"
| "context_request_of n = None"

definition spec_context_requests :: "template \<Rightarrow> (pyval \<times> pyval) list" where
  "spec_context_requests ast = List.map_filter context_request_of (template_nodes ast)"

text \<open>
  A constant assignment: an assignment node whose target is a simple name and whose
  assigned expression is a constant. The constant assignments of a template, in
  traversal order.
\<close>

fun const_assignment_of :: "node \<Rightarrow> (string \<times> pyval) option" where
  "const_assignment_of (Assign (Name n c) (Const v)) = Some (n, v)"
| "const_assignment_of n = None"

definition spec_const_assignments :: "template \<Rightarrow> (string \<times> pyval) list" where
  "spec_const_assignments ast = List.map_filter const_assignment_of (template_nodes ast)"

text \<open>
  The key/value pair a \<open>setcontext\<close> tag sets, and the pairs collected from the tags of
  a text, a later value for a key replacing an earlier one.
\<close>

fun tag_pair :: "string option \<Rightarrow> (error + node) option \<Rightarrow> (string \<times> pyval) option" where
  "tag_pair (Some n) (Some (Inr (Const v))) = Some (n, v)"
| "tag_pair n e = None"

definition collected_pairs :: "setcontext_tag list \<Rightarrow> (string \<times> pyval) list" where
  "collected_pairs ts =
     foldl (\<lambda>d (n, v). dict_set n v d) []
           (List.map_filter (\<lambda>t. tag_pair (tag_name t) (tag_assign t)) ts)"

text \<open>
  The registrations of one \<open>prepare\<close>, in order: the single target, the dependencies
  on the referenced templates, the context dependencies cleared and added again from the
  context requests, the contexts removed and set again from the collected pairs.
\<close>

definition registrations ::
  "env \<Rightarrow> path \<Rightarrow> template \<Rightarrow> (string \<times> pyval) list \<Rightarrow> host_call list" where
  "registrations env path ast pairs =
     [SetTargets path [app_target_path env path],
      SetDependencies path (map (app_source_path env) (find_referenced_templates env ast)),
      ClearDependencies path]
     @ map (\<lambda>(n, v). AddDependency path n v) (spec_context_requests ast)
     @ [RemoveContext path]
     @ map (\<lambda>(n, v). SetContext path n v) pairs"

text \<open>The calls that add a context dependency, and the calls that set a context.\<close>

fun is_AddDependency :: "host_call \<Rightarrow> bool" where
  "is_AddDependency (AddDependency p n v) = True"
| "is_AddDependency c = False"

fun is_SetContext :: "host_call \<Rightarrow> bool" where
  "is_SetContext (SetContext p n v) = True"
| "is_SetContext c = False"

text \<open>The state in which a call leaves the processor, the host and the filesystem.\<close>

fun world_of :: "outcome \<Rightarrow> world" where
  "world_of (Returned w) = w"
| "world_of (Raised e w) = w"

section \<open>An example site\<close>

text \<open>
  Four source files: a page that sets a context and asks for others, a base template
  marked as template only, and two pages that set the same context variable. The
  compiled templates of the example render to the names of the variables they are
  given, so that the written text shows the render context.
\<close>

definition index_text :: string where
  "index_text = ''{% setcontext year = 2014 %}{{ getcontexts(7, 8) }}''"

definition base_text :: string where
  "base_text = ''{% set template_only = true %}''"

definition a_text :: string where
  "a_text = ''{% setcontext rank = 1 %}''"

definition b_text :: string where
  "b_text = ''{% setcontext rank = 2 %}''"

definition example_tags :: "string \<Rightarrow> setcontext_tag list" where
  "example_tags text =
     (if text = index_text
      then [\<lparr>tag_name = Some ''year'', tag_assign = Some (Inr (Const (PInt 2014)))\<rparr>]
      else if text = a_text
      then [\<lparr>tag_name = Some ''rank'', tag_assign = Some (Inr (Const (PInt 1)))\<rparr>]
      else if text = b_text
      then [\<lparr>tag_name = Some ''rank'', tag_assign = Some (Inr (Const (PInt 2)))\<rparr>]
      else [])"

definition example_template :: "string \<Rightarrow> node list list \<Rightarrow> error + template" where
  "example_template text nss =
     (if text = index_text
      then Inr (Template (concat nss @
             [Other [Call (Name ''getcontexts'' Load) [Const (PInt 7), Const (PInt 8)] []]]))
      else if text = base_text
      then Inr (Template [Assign (Name ''template_only'' Store) (Const (PBool True))])
      else if text = a_text \<or> text = b_text
      then Inr (Template (concat nss))
      else Inl TemplateSyntaxError)"

definition example_compiled :: "string \<Rightarrow> node list list \<Rightarrow> error + compiled" where
  "example_compiled text nss =
     (if text = index_text \<or> text = base_text \<or> text = a_text \<or> text = b_text
      then Inr (\<lambda>c. \<lparr>loaded_tags = [], rendered = Inr (concat (map fst c))\<rparr>)
      else Inl TemplateSyntaxError)"

definition example_env :: env where
  "example_env =
     \<lparr>open_read = (\<lambda>p. if p = ''src/index.html'' then Inr index_text
                       else if p = ''src/base.html'' then Inr base_text
                       else if p = ''src/a.html'' then Inr a_text
                       else if p = ''src/b.html'' then Inr b_text
                       else Inl OSError),
      env_parse = (\<lambda>text. \<lparr>tags = example_tags text, finish = example_template text\<rparr>),
      env_from_string = (\<lambda>text. \<lparr>tags = example_tags text, finish = example_compiled text\<rparr>),
      find_referenced_templates = (\<lambda>ast. []),
      app_target_path = (\<lambda>p. ''build/'' @ drop 4 p),
      app_source_path = (\<lambda>t. case t of None \<Rightarrow> ''src/'' | Some n \<Rightarrow> ''src/'' @ n),
      app_relative_path = (\<lambda>p. drop 6 p),
      get_source = (\<lambda>p. Some \<lparr>source_size = PInt 52, source_modified = PInt 1400000000\<rparr>),
      get_targets = (\<lambda>p. [''build/'' @ drop 4 p]),
      os_makedirs = (\<lambda>d. None),
      open_write = (\<lambda>p. None),
      fh_write = (\<lambda>p text. None)\<rparr>"

text \<open>The same site on a host that has no record of its source files.\<close>

definition unknown_env :: env where
  "unknown_env = example_env\<lparr>get_source := (\<lambda>p. None)\<rparr>"

text \<open>
  The syntax tree of the first page, and the state after the page has been prepared in
  the initial state and after it has then been generated.
\<close>

definition index_ast :: template where
  "index_ast =
     Template [Assign (Name ''year'' Store) (Const (PInt 2014)),
               Other [Call (Name ''getcontexts'' Load) [Const (PInt 7), Const (PInt 8)] []]]"

definition index_pending :: world where
  "index_pending =
     \<lparr>generate_dict = [''src/index.html'' \<mapsto> (''build/index.html'', index_ast)],
      set_contexts = [(''year'', PInt 2014)],
      current_path = Some ''src/index.html'',
      host_calls =
        [SetTargets ''src/index.html'' [''build/index.html''],
         SetDependencies ''src/index.html'' [],
         ClearDependencies ''src/index.html'',
         AddDependency ''src/index.html'' (PInt 7) (PInt 8),
         RemoveContext ''src/index.html'',
         SetContext ''src/index.html'' ''year'' (PInt 2014)],
      fs_ops = []\<rparr>"

definition index_generated :: world where
  "index_generated =
     index_pending
       \<lparr>generate_dict := Map.empty,
        fs_ops := [Makedirs ''build'', OpenW ''build/index.html'',
                   Write ''build/index.html'' ''urlurlssizemodified'']\<rparr>"

text \<open>The state after the first of the two pages that set \<open>rank\<close> has been prepared.\<close>

definition a_pending :: world where
  "a_pending =
     \<lparr>generate_dict = [''src/a.html'' \<mapsto>
                   (''build/a.html'', Template [Assign (Name ''rank'' Store) (Const (PInt 1))])],
      set_contexts = [(''rank'', PInt 1)],
      current_path = Some ''src/a.html'',
      host_calls =
        [SetTargets ''src/a.html'' [''build/a.html''],
         SetDependencies ''src/a.html'' [],
         ClearDependencies ''src/a.html'',
         RemoveContext ''src/a.html'',
         SetContext ''src/a.html'' ''rank'' (PInt 1)],
      fs_ops = []\<rparr>"

text \<open>The syntax tree of the base template.\<close>

definition base_ast :: template where
  "base_ast = Template [Assign (Name ''template_only'' Store) (Const (PBool True))]"

text \<open>
  The site after every source file has been overwritten with the text of the third, and
  the site on a filesystem that refuses to create directories.
\<close>

definition edited_env :: env where
  "edited_env = example_env\<lparr>open_read := (\<lambda>p. Inr a_text)\<rparr>"

definition readonly_env :: env where
  "readonly_env = example_env\<lparr>os_makedirs := (\<lambda>d. Some OSError)\<rparr>"

text \<open>A template that assigns a constant to the same name twice, the second time in a block.\<close>

definition twice_assigned :: template where
  "twice_assigned =
     Template [Assign (Name ''draft'' Store) (Const (PBool True)),
               Other [Assign (Name ''draft'' Store) (Const (PBool False))]]"

section \<open>Auxiliary facts\<close>

subsection \<open>The walk and the two scans\<close>

lemma subtree_children: "subtree n = n # concat (map subtree (iter_child_nodes n))"
  by (cases n) simp_all

lemma filter_subtree:
  "filter P (subtree c) =
     (if P c then [c] else []) @ filter P (concat (map subtree (iter_child_nodes c)))"
  by (subst subtree_children) simp

lemma find_all_filter: "find_all P n = filter P (concat (map subtree (iter_child_nodes n)))"
proof (induction P n rule: find_all.induct)
  case (1 P n)
  have step: "(if P c then [c] else []) @ find_all P c = filter P (subtree c)"
    if "c \<in> set (iter_child_nodes n)" for c
    using "1.IH" [OF that] by (simp add: filter_subtree)
  have "find_all P n =
        concat (map (\<lambda>child. (if P child then [child] else []) @ find_all P child)
                    (iter_child_nodes n))"
    by (simp add: find_all.simps [of P n])
  also have "\<dots> = concat (map (\<lambda>child. filter P (subtree child)) (iter_child_nodes n))"
    using step by (auto intro!: arg_cong [where f = concat])
  also have "\<dots> = filter P (concat (map subtree (iter_child_nodes n)))"
    by (simp add: filter_concat comp_def)
  finally show ?case .
qed

lemma template_find_all_filter: "template_find_all P t = filter P (template_nodes t)"
proof -
  have "(if P c then [c] else []) @ find_all P c = filter P (subtree c)" for c
    by (simp add: filter_subtree find_all_filter)
  then show ?thesis
    by (simp add: template_find_all_def template_nodes_def filter_concat comp_def)
qed

lemma step_call:
  "is_Call n \<Longrightarrow>
     context_requests_step acc n =
       acc @ (case context_request_of n of None \<Rightarrow> [] | Some p \<Rightarrow> [p])"
  apply (cases n; simp add: context_requests_step_def)
  subgoal for f as ks
    apply (cases f; simp)
    apply (cases as; simp)
    subgoal for n c a as'
      apply (cases as'; simp)
      subgoal for b as''
        apply (cases as''; simp)
        apply (cases a; cases b; simp)
        done
      done
    done
  done

lemma step_assign:
  "is_Assign n \<Longrightarrow>
     const_vars_step m n =
       (case const_assignment_of n of None \<Rightarrow> m | Some (k, v) \<Rightarrow> m(k \<mapsto> v))"
  apply (cases n; simp add: const_vars_step_def)
  subgoal for t e
    by (cases t; cases e; simp)
  done

lemma not_call: "\<not> is_Call n \<Longrightarrow> context_request_of n = None"
  by (cases n) auto

lemma not_assign: "\<not> is_Assign n \<Longrightarrow> const_assignment_of n = None"
  by (cases n) auto

lemma requests_loop:
  "foldl context_requests_step acc (filter is_Call ns) = acc @ List.map_filter context_request_of ns"
  by (induction ns arbitrary: acc)
     (auto simp: step_call not_call List.map_filter_simps split: option.splits)

lemma const_vars_loop:
  "foldl const_vars_step m (filter is_Assign ns) =
     foldl (\<lambda>m (k, v). m(k \<mapsto> v)) m (List.map_filter const_assignment_of ns)"
  by (induction ns arbitrary: m)
     (auto simp: step_assign not_assign List.map_filter_simps split: option.splits)

lemma foldl_upd_snoc_iff:
  "(foldl (\<lambda>m (k, v). m(k \<mapsto> v)) Map.empty ps) n = Some c \<longleftrightarrow>
     (\<exists>xs ys. ps = xs @ (n, c) # ys \<and> n \<notin> fst ` set ys)"
proof (induction ps rule: rev_induct)
  case Nil
  then show ?case by simp
next
  case (snoc p ps)
  obtain k v where p: "p = (k, v)" by (cases p)
  have split: "(\<exists>xs ys. ps @ [p] = xs @ (n, c) # ys \<and> n \<notin> fst ` set ys) \<longleftrightarrow>
          (p = (n, c) \<or> (k \<noteq> n \<and> (\<exists>xs ys. ps = xs @ (n, c) # ys \<and> n \<notin> fst ` set ys)))"
    (is "?L \<longleftrightarrow> ?R")
  proof
    assume ?L
    then obtain xs ys where eq: "ps @ [p] = xs @ (n, c) # ys" and nin: "n \<notin> fst ` set ys"
      by blast
    show ?R
    proof (cases ys rule: rev_cases)
      case Nil
      with eq show ?thesis by simp
    next
      case (snoc ys0 y)
      with eq have "ps = xs @ (n, c) # ys0" and "p = y"
        by (simp_all flip: append_assoc append_Cons)
      with nin snoc p show ?thesis by force
    qed
  next
    assume ?R
    then show ?L
    proof
      assume "p = (n, c)"
      then have "ps @ [p] = ps @ (n, c) # []" by simp
      then show ?L by (metis empty_iff image_empty list.set(1))
    next
      assume "k \<noteq> n \<and> (\<exists>xs ys. ps = xs @ (n, c) # ys \<and> n \<notin> fst ` set ys)"
      then obtain xs ys where "k \<noteq> n" "ps = xs @ (n, c) # ys" "n \<notin> fst ` set ys" by blast
      then have "ps @ [p] = xs @ (n, c) # (ys @ [p])" "n \<notin> fst ` set (ys @ [p])"
        using p by auto
      then show ?L by blast
    qed
  qed
  show ?case
    unfolding split using snoc.IH p by (cases "k = n") auto
qed


lemma get_context_requests_spec: "get_context_requests ast = spec_context_requests ast"
  by (simp add: get_context_requests_def spec_context_requests_def template_find_all_filter
      requests_loop)

lemma get_const_vars_spec:
  "get_const_vars ast = foldl (\<lambda>m (k, v). m(k \<mapsto> v)) Map.empty (spec_const_assignments ast)"
  by (simp add: get_const_vars_def spec_const_assignments_def template_find_all_filter
      const_vars_loop)

lemma tag_pair_expr:
  "tag_pair (Some n) (Some (Inr e)) = (if is_Const e then Some (n, node_value e) else None)"
  by (cases e) auto

lemma parse_tag_world:
  "SetContextExtension_parse t w = (r, w') \<Longrightarrow>
     w' = w\<lparr>set_contexts :=
            (case tag_pair (tag_name t) (tag_assign t) of
               None \<Rightarrow> set_contexts w | Some (n, v) \<Rightarrow> dict_set n v (set_contexts w))\<rparr>"
  by (auto simp: SetContextExtension_parse_def add_set_context_def tag_pair_expr
      split: option.splits sum.splits if_splits)

lemma run_tags_frame:
  "run_tags ts w = (r, w') \<Longrightarrow> \<exists>d. w' = w\<lparr>set_contexts := d\<rparr>"
proof (induction ts arbitrary: w r w')
  case Nil
  then show ?case by (auto intro: exI [of _ "set_contexts w"])
next
  case (Cons t ts)
  obtain r1 w1 where p: "SetContextExtension_parse t w = (r1, w1)" by fastforce
  from parse_tag_world [OF p] obtain d1 where w1: "w1 = w\<lparr>set_contexts := d1\<rparr>" by blast
  show ?case
  proof (cases r1)
    case (Inl e)
    with Cons.prems p w1 show ?thesis by auto
  next
    case (Inr ns)
    obtain r2 w2 where q: "run_tags ts w1 = (r2, w2)" by fastforce
    from Cons.IH [OF q] obtain d2 where "w2 = w1\<lparr>set_contexts := d2\<rparr>" by blast
    with w1 have "w2 = w\<lparr>set_contexts := d2\<rparr>" by simp
    moreover from Cons.prems p q Inr have "w' = w2" by (auto split: sum.splits)
    ultimately show ?thesis by blast
  qed
qed

lemma run_tags_collect:
  "run_tags ts w = (Inr nss, w') \<Longrightarrow>
     set_contexts w' =
       foldl (\<lambda>d (n, v). dict_set n v d) (set_contexts w)
             (List.map_filter (\<lambda>t. tag_pair (tag_name t) (tag_assign t)) ts)"
proof (induction ts arbitrary: w nss w')
  case Nil
  then show ?case by (simp add: List.map_filter_simps)
next
  case (Cons t ts)
  obtain r1 w1 where p: "SetContextExtension_parse t w = (r1, w1)" by fastforce
  obtain r2 w2 where q: "run_tags ts w1 = (r2, w2)" by fastforce
  from Cons.prems p q obtain ns nss' where r: "r1 = Inr ns" "r2 = Inr nss'" "w' = w2"
    by (auto split: sum.splits)
  from Cons.IH [of w1 nss' w2] q r
  have "set_contexts w' =
       foldl (\<lambda>d (n, v). dict_set n v d) (set_contexts w1)
             (List.map_filter (\<lambda>t. tag_pair (tag_name t) (tag_assign t)) ts)" by simp
  moreover from parse_tag_world [OF p]
  have "set_contexts w1 = (case tag_pair (tag_name t) (tag_assign t) of
               None \<Rightarrow> set_contexts w | Some (n, v) \<Rightarrow> dict_set n v (set_contexts w))"
    by simp
  ultimately show ?case
    by (simp add: List.map_filter_simps split: option.splits)
qed

lemma run_parse_frame:
  "run_parse r w = (x, w') \<Longrightarrow> \<exists>d. w' = w\<lparr>set_contexts := d\<rparr>"
  unfolding run_parse_def
  by (cases "run_tags (tags r) w") (auto split: sum.splits dest: run_tags_frame)

lemma run_parse_collect:
  "run_parse r w = (Inr x, w') \<Longrightarrow> set_contexts w = [] \<Longrightarrow>
     set_contexts w' = collected_pairs (tags r)"
  unfolding run_parse_def collected_pairs_def
  by (cases "run_tags (tags r) w") (auto split: sum.splits dest: run_tags_collect)

lemma run_render_frame:
  "run_render r w = (x, w') \<Longrightarrow> \<exists>d. w' = w\<lparr>set_contexts := d\<rparr>"
  unfolding run_render_def
  by (cases "run_tags (loaded_tags r) w") (auto split: sum.splits dest: run_tags_frame)

lemma foldl_host_call:
  "foldl (\<lambda>w' (n, v). host_call (f n v) w') w xs =
     w\<lparr>host_calls := host_calls w @ map (\<lambda>(n, v). f n v) xs\<rparr>"
  by (induction xs arbitrary: w) (auto simp: host_call_def)

lemma prepare_pending: "generate_dict w path \<noteq> None \<Longrightarrow> prepare env path w = Returned w"
  by (simp add: prepare_def)

lemma prepare_parsed:
  assumes "generate_dict w path = None"
    and "open_read env path = Inr text"
    and "run_parse (env_parse env text) (w\<lparr>current_path := Some path, set_contexts := []\<rparr>)
           = (Inr ast, w2)"
  shows "prepare env path w =
     Returned (w\<lparr>current_path := Some path,
                 set_contexts := collected_pairs (tags (env_parse env text)),
                 host_calls := host_calls w @
                   registrations env path ast (collected_pairs (tags (env_parse env text))),
                 generate_dict :=
                   (if truthy (case get_const_vars ast ''template_only'' of
                                 None \<Rightarrow> PBool False | Some v \<Rightarrow> v)
                    then generate_dict w
                    else (generate_dict w)(path \<mapsto> (app_target_path env path, ast)))\<rparr>)"
proof -
  from run_parse_frame [OF assms(3)] obtain d
    where "w2 = w\<lparr>current_path := Some path, set_contexts := []\<rparr>\<lparr>set_contexts := d\<rparr>" by blast
  moreover from run_parse_collect [OF assms(3)]
  have "set_contexts w2 = collected_pairs (tags (env_parse env text))" by simp
  ultimately have w2: "w2 = w\<lparr>current_path := Some path,
      set_contexts := collected_pairs (tags (env_parse env text))\<rparr>" by simp
  show ?thesis
    unfolding prepare_def Let_def foldl_host_call
    using assms
    by (simp add: host_call_def w2 registrations_def target_path_def
        get_context_requests_spec)
qed

subsection \<open>The calls of the processor\<close>

lemma run_parse_fields:
  "run_parse r w = (x, w') \<Longrightarrow>
     generate_dict w' = generate_dict w \<and> host_calls w' = host_calls w \<and>
     fs_ops w' = fs_ops w \<and> current_path w' = current_path w"
  by (auto dest: run_parse_frame)

lemma run_render_fields:
  "run_render r w = (x, w') \<Longrightarrow>
     generate_dict w' = generate_dict w \<and> host_calls w' = host_calls w \<and>
     fs_ops w' = fs_ops w \<and> current_path w' = current_path w"
  by (auto dest: run_render_frame)

lemma prepare_other_paths:
  "q \<noteq> path \<Longrightarrow> generate_dict (world_of (prepare env path w)) q = generate_dict w q"
  unfolding prepare_def foldl_host_call
  by (auto simp: Let_def host_call_def split: sum.splits prod.splits
      dest!: run_parse_fields)

lemma prepare_entry:
  assumes "generate_dict w path = None"
    and "generate_dict (world_of (prepare env path w)) path = Some (target, ast)"
  shows "target = target_path env path \<and>
         (\<exists>text w2. open_read env path = Inr text \<and>
            run_parse (env_parse env text) (w\<lparr>current_path := Some path, set_contexts := []\<rparr>)
              = (Inr ast, w2))"
proof (cases "open_read env path")
  case (Inl e)
  with assms show ?thesis by (simp add: prepare_def Let_def)
next
  case (Inr src)
  obtain r w2
    where p: "run_parse (env_parse env src) (w\<lparr>current_path := Some path, set_contexts := []\<rparr>)
                = (r, w2)"
    by fastforce
  from run_parse_fields [OF p] have d: "generate_dict w2 = generate_dict w" by simp
  show ?thesis
  proof (cases r)
    case (Inl e)
    with assms Inr p d show ?thesis by (simp add: prepare_def Let_def)
  next
    case r: (Inr ast')
    from prepare_parsed [OF assms(1) Inr p [unfolded r]] assms
    have "target = app_target_path env path \<and> ast = ast'"
      by (simp split: if_splits)
    with Inr p r show ?thesis by (simp add: target_path_def)
  qed
qed

lemma generate_not_pending:
  "generate_dict w path = None \<Longrightarrow> generate env path w = Returned w"
  by (simp add: generate_def)

lemma generate_written:
  assumes "generate_dict w path = Some (target, ast)"
    and "open_read env path = Inr text"
    and "run_parse (env_from_string env text) w = (Inr template, w1)"
    and "os_makedirs env (dirname target) = None"
    and "open_write env target = None"
    and "run_render (template (context_dict env path))
           (fs_op (OpenW target) (fs_op (Makedirs (dirname target)) w1)) = (Inr out, w4)"
    and "fh_write env target out = None"
  shows "generate env path w =
           Returned (w\<lparr>set_contexts := set_contexts w4,
                       fs_ops := fs_ops w @
                         [Makedirs (dirname target), OpenW target, Write target out],
                       generate_dict := (generate_dict w)(path := None)\<rparr>)"
proof -
  from run_parse_frame [OF assms(3)] obtain d1 where w1: "w1 = w\<lparr>set_contexts := d1\<rparr>"
    by blast
  from run_render_frame [OF assms(6)] obtain d4
    where "w4 = (fs_op (OpenW target) (fs_op (Makedirs (dirname target)) w1))\<lparr>set_contexts := d4\<rparr>"
    by blast
  with w1 have w4: "w4 = w\<lparr>set_contexts := d4,
      fs_ops := fs_ops w @ [Makedirs (dirname target), OpenW target]\<rparr>"
    by (simp add: fs_op_def)
  have "generate env path w =
          Returned ((fs_op (Write target out) w4)
                      \<lparr>generate_dict := (generate_dict (fs_op (Write target out) w4))(path := None)\<rparr>)"
    using assms by (simp add: generate_def Let_def)
  also have "\<dots> = Returned (w\<lparr>set_contexts := set_contexts w4,
                       fs_ops := fs_ops w @
                         [Makedirs (dirname target), OpenW target, Write target out],
                       generate_dict := (generate_dict w)(path := None)\<rparr>)"
    by (simp add: w4 fs_op_def)
  finally show ?thesis .
qed

lemma generate_Raised:
  assumes "generate env path w = Raised e w'"
  shows "generate_dict w' = generate_dict w \<and> host_calls w' = host_calls w"
  using assms unfolding generate_def
  by (auto simp: Let_def fs_op_def split: option.splits sum.splits prod.splits
      dest!: run_parse_fields run_render_fields)

lemma generate_Returned:
  assumes "generate env path w = Returned w'"
  shows "generate_dict w' = (generate_dict w)(path := None) \<and> host_calls w' = host_calls w"
  using assms unfolding generate_def
  by (auto simp: Let_def fs_op_def split: option.splits sum.splits prod.splits
      dest!: run_parse_fields run_render_fields)

lemma filter_AddDependency_registrations:
  "filter is_AddDependency (registrations env path ast pairs) =
     map (\<lambda>(n, v). AddDependency path n v) (spec_context_requests ast)"
proof -
  have a: "filter is_AddDependency (map (\<lambda>(n, v). AddDependency path n v) xs) =
           map (\<lambda>(n, v). AddDependency path n v) xs" for xs :: "(pyval \<times> pyval) list"
    by (induction xs) auto
  have s: "filter is_AddDependency (map (\<lambda>(n, v). SetContext path n v) ys) = []"
    for ys :: "(string \<times> pyval) list"
    by (induction ys) auto
  show ?thesis by (simp add: registrations_def a s)
qed

lemma filter_SetContext_registrations:
  "filter is_SetContext (registrations env path ast pairs) =
     map (\<lambda>(n, v). SetContext path n v) pairs"
proof -
  have a: "filter is_SetContext (map (\<lambda>(n, v). AddDependency path n v) xs) = []"
    for xs :: "(pyval \<times> pyval) list"
    by (induction xs) auto
  have s: "filter is_SetContext (map (\<lambda>(n, v). SetContext path n v) ys) =
           map (\<lambda>(n, v). SetContext path n v) ys"
    for ys :: "(string \<times> pyval) list"
    by (induction ys) auto
  show ?thesis by (simp add: registrations_def a s)
qed

lemma context_dict_known:
  assumes "get_source env path = Some source"
  shows "map_of (context_dict env path) ''urls'' =
           Some (StrList (map (\<lambda>t. CHR ''/'' # app_relative_path env t) (get_targets env path)))"
    and "map_of (context_dict env path) ''size'' = Some (Val (source_size source))"
    and "map_of (context_dict env path) ''modified'' = Some (Val (source_modified source))"
    and "map_of (context_dict env path) ''url'' =
           (if length (get_targets env path) = 1
            then Some (Str (CHR ''/'' # app_relative_path env (get_targets env path ! 0)))
            else None)"
  using assms by (simp_all add: context_dict_def Let_def)

lemma get_const_vars_last:
  assumes "spec_const_assignments ast = xs @ (k, c) # ys" and "k \<notin> fst ` set ys"
  shows "get_const_vars ast k = Some c"
proof -
  from assms have "\<exists>xs ys. spec_const_assignments ast = xs @ (k, c) # ys \<and> k \<notin> fst ` set ys"
    by blast
  then show ?thesis
    by (simp only: get_const_vars_spec foldl_upd_snoc_iff)
qed

lemma last_template_only:
  assumes "spec_const_assignments ast = earlier @ (k, c) # later"
    and "truthy c"
    and "\<forall>(n, v) \<in> set later. n = k \<longrightarrow> truthy v"
  shows "\<exists>c'. get_const_vars ast k = Some c' \<and> truthy c'"
proof (cases "k \<in> fst ` set later")
  case False
  with assms(1) have "get_const_vars ast k = Some c"
    by (rule get_const_vars_last)
  with assms(2) show ?thesis by simp
next
  case True
  then have "\<exists>p \<in> set later. fst p = k" by auto
  from split_list_last_prop [OF this] obtain ys p zs
    where later: "later = ys @ p # zs" and p: "fst p = k" and zs: "\<forall>z \<in> set zs. fst z \<noteq> k"
    by blast
  from assms(1) later p
  have "spec_const_assignments ast = (earlier @ (k, c) # ys) @ (k, snd p) # zs"
    by (cases p) simp
  moreover from zs have "k \<notin> fst ` set zs" by auto
  ultimately have "get_const_vars ast k = Some (snd p)"
    by (rule get_const_vars_last)
  moreover from assms(3) later p have "truthy (snd p)" by (cases p) auto
  ultimately show ?thesis by simp
qed

subsection \<open>The example site\<close>

lemmas example_defs =
  example_env_def example_tags_def example_template_def example_compiled_def
  index_text_def base_text_def a_text_def b_text_def

lemma parse_index:
  "run_parse (env_parse example_env index_text)
     (init_world\<lparr>current_path := Some ''src/index.html'', set_contexts := []\<rparr>) =
   (Inr index_ast, init_world\<lparr>current_path := Some ''src/index.html'',
                              set_contexts := [(''year'', PInt 2014)]\<rparr>)"
  by (simp add: example_defs run_parse_def SetContextExtension_parse_def add_set_context_def
      index_ast_def init_world_def)

lemma prepare_index: "prepare example_env ''src/index.html'' init_world = Returned index_pending"
proof -
  have "generate_dict init_world ''src/index.html'' = None" by (simp add: init_world_def)
  moreover have "open_read example_env ''src/index.html'' = Inr index_text"
    by (simp add: example_env_def)
  ultimately show ?thesis
    using prepare_parsed [OF _ _ parse_index]
    apply simp
    apply (simp add: init_world_def index_pending_def registrations_def collected_pairs_def
        List.map_filter_simps spec_context_requests_def template_nodes_def index_ast_def
        get_const_vars_spec spec_const_assignments_def)
    apply (simp add: example_defs List.map_filter_simps)
    done
qed

lemma generate_index:
  "generate example_env ''src/index.html'' index_pending = Returned index_generated"
  by (simp add: generate_def index_pending_def index_generated_def example_defs run_parse_def
      run_render_def SetContextExtension_parse_def add_set_context_def fs_op_def
      context_dict_def dirname_def Let_def)

lemma generate_index_unknown:
  "generate unknown_env ''src/index.html'' index_pending =
     Returned (index_pending
       \<lparr>generate_dict := Map.empty,
        fs_ops := [Makedirs ''build'', OpenW ''build/index.html'',
                   Write ''build/index.html'' []]\<rparr>)"
  by (simp add: generate_def index_pending_def unknown_env_def example_defs run_parse_def
      run_render_def SetContextExtension_parse_def add_set_context_def fs_op_def
      context_dict_def dirname_def Let_def)

lemma generate_index_readonly:
  "generate readonly_env ''src/index.html'' index_pending = Raised OSError index_pending"
  by (simp add: generate_def index_pending_def readonly_env_def example_defs run_parse_def
      SetContextExtension_parse_def add_set_context_def Let_def)

lemma prepare_a: "prepare example_env ''src/a.html'' init_world = Returned a_pending"
  by (simp add: prepare_def init_world_def a_pending_def example_defs run_parse_def
      SetContextExtension_parse_def add_set_context_def host_call_def target_path_def
      get_const_vars_spec get_context_requests_spec spec_const_assignments_def
      spec_context_requests_def template_nodes_def List.map_filter_simps Let_def)

lemma b_hyps:
  "generate_dict a_pending ''src/b.html'' = None"
  "open_read example_env ''src/b.html'' = Inr b_text"
  "run_parse (env_parse example_env b_text)
     (a_pending\<lparr>current_path := Some ''src/b.html'', set_contexts := []\<rparr>) =
   (Inr (Template [Assign (Name ''rank'' Store) (Const (PInt 2))]),
    a_pending\<lparr>current_path := Some ''src/b.html'', set_contexts := [(''rank'', PInt 2)]\<rparr>)"
  by (simp_all add: example_defs run_parse_def SetContextExtension_parse_def
      add_set_context_def a_pending_def)

lemma b_collected:
  "collected_pairs (tags (env_parse example_env b_text)) = [(''rank'', PInt 2)]"
  by (simp add: collected_pairs_def List.map_filter_simps example_defs)

lemma index_hyps:
  "generate_dict init_world ''src/index.html'' = None"
  "open_read example_env ''src/index.html'' = Inr index_text"
  "run_parse (env_parse example_env index_text)
          (init_world\<lparr>current_path := Some ''src/index.html'', set_contexts := []\<rparr>) =
        (Inr index_ast, init_world\<lparr>current_path := Some ''src/index.html'',
                              set_contexts := [(''year'', PInt 2014)]\<rparr>)"
  by (simp_all add: parse_index) (simp_all add: init_world_def example_env_def)

lemma index_collected:
  "collected_pairs (tags (env_parse example_env index_text)) = [(''year'', PInt 2014)]"
  by (simp add: collected_pairs_def List.map_filter_simps example_defs)

lemma index_requests: "spec_context_requests index_ast = [(PInt 7, PInt 8)]"
  by (simp add: spec_context_requests_def template_nodes_def index_ast_def
      List.map_filter_simps)

lemma index_registrations:
  "registrations example_env ''src/index.html'' index_ast [(''year'', PInt 2014)] =
     host_calls index_pending"
  by (simp add: registrations_def index_requests index_pending_def example_env_def)

lemma index_entry:
  "generate_dict index_pending ''src/index.html'' = Some (''build/index.html'', index_ast)"
  by (simp add: index_pending_def)

lemma base_hyps:
  "generate_dict init_world ''src/base.html'' = None"
  "open_read example_env ''src/base.html'' = Inr base_text"
  "run_parse (env_parse example_env base_text)
     (init_world\<lparr>current_path := Some ''src/base.html'', set_contexts := []\<rparr>) =
   (Inr base_ast, init_world\<lparr>current_path := Some ''src/base.html'', set_contexts := []\<rparr>)"
  by (simp_all add: example_defs run_parse_def init_world_def base_ast_def)

section \<open>The claims\<close>

text \<open>
  C1. The context requests extracted from a parsed template are exactly the argument
  pairs of the calls whose callee is a simple name and which have exactly two positional
  arguments, both constant, in traversal order; and when \<open>prepare\<close> parses the template
  of a path (the path was not pending, its file was read and parsed), the context
  dependencies it adds for the path are exactly these pairs, in that order.
\<close>

theorem context_requests_extracted_and_registered:
  "get_context_requests ast = spec_context_requests ast \<and>
   (generate_dict w path = None \<and> open_read env path = Inr text \<and>
    run_parse (env_parse env text) (w\<lparr>current_path := Some path, set_contexts := []\<rparr>)
      = (Inr ast, w2) \<longrightarrow>
    (\<exists>w'. prepare env path w = Returned w' \<and>
          filter is_AddDependency (drop (length (host_calls w)) (host_calls w')) =
            map (\<lambda>(n, v). AddDependency path n v) (spec_context_requests ast)))"
proof (intro conjI impI)
  show "get_context_requests ast = spec_context_requests ast"
    by (rule get_context_requests_spec)
next
  assume "generate_dict w path = None \<and> open_read env path = Inr text \<and>
    run_parse (env_parse env text) (w\<lparr>current_path := Some path, set_contexts := []\<rparr>)
      = (Inr ast, w2)"
  then have "prepare env path w =
     Returned (w\<lparr>current_path := Some path,
                 set_contexts := collected_pairs (tags (env_parse env text)),
                 host_calls := host_calls w @
                   registrations env path ast (collected_pairs (tags (env_parse env text))),
                 generate_dict :=
                   (if truthy (case get_const_vars ast ''template_only'' of
                                 None \<Rightarrow> PBool False | Some v \<Rightarrow> v)
                    then generate_dict w
                    else (generate_dict w)(path \<mapsto> (app_target_path env path, ast)))\<rparr>)"
    by (intro prepare_parsed) simp_all
  then show "\<exists>w'. prepare env path w = Returned w' \<and>
          filter is_AddDependency (drop (length (host_calls w)) (host_calls w')) =
            map (\<lambda>(n, v). AddDependency path n v) (spec_context_requests ast)"
    by (simp add: filter_AddDependency_registrations)
qed

theorem context_requests_extracted_and_registered_witness:
  "get_context_requests index_ast = [(PInt 7, PInt 8)] \<and>
   (\<exists>w'. prepare example_env ''src/index.html'' init_world = Returned w' \<and>
         filter is_AddDependency (host_calls w') =
           [AddDependency ''src/index.html'' (PInt 7) (PInt 8)])"
proof -
  have req: "spec_context_requests index_ast = [(PInt 7, PInt 8)]"
    by (simp add: spec_context_requests_def template_nodes_def index_ast_def
        List.map_filter_simps)
  have hyp: "generate_dict init_world ''src/index.html'' = None \<and>
        open_read example_env ''src/index.html'' = Inr index_text \<and>
        run_parse (env_parse example_env index_text)
          (init_world\<lparr>current_path := Some ''src/index.html'', set_contexts := []\<rparr>) =
        (Inr index_ast, init_world\<lparr>current_path := Some ''src/index.html'',
                              set_contexts := [(''year'', PInt 2014)]\<rparr>)"
    by (simp add: parse_index) (simp add: init_world_def example_env_def)
  note inst = context_requests_extracted_and_registered
    [of index_ast init_world "''src/index.html''" example_env index_text]
  from inst have "get_context_requests index_ast = spec_context_requests index_ast"
    by (rule conjunct1)
  moreover from mp [OF conjunct2 [OF inst] hyp]
  have "\<exists>w'. prepare example_env ''src/index.html'' init_world = Returned w' \<and>
         filter is_AddDependency (drop (length (host_calls init_world)) (host_calls w')) =
           map (\<lambda>(n, v). AddDependency ''src/index.html'' n v) (spec_context_requests index_ast)" .
  ultimately show ?thesis by (simp add: req init_world_def)
qed

text \<open>
  C2. The constant-variable extraction maps a name \<open>n\<close> to a value \<open>c\<close> if and only if
  the template has a constant assignment of \<open>c\<close> to \<open>n\<close> that no later constant
  assignment to \<open>n\<close> follows in traversal order: of several assignments to one name the
  last is kept. The names it maps are exactly the names of the constant assignments.
\<close>

theorem get_const_vars_last_assignment:
  "(get_const_vars ast n = Some c \<longleftrightarrow>
      (\<exists>earlier later. spec_const_assignments ast = earlier @ (n, c) # later \<and>
                        n \<notin> fst ` set later)) \<and>
   (n \<in> dom (get_const_vars ast) \<longleftrightarrow> n \<in> fst ` set (spec_const_assignments ast))"
proof
  show last: "get_const_vars ast n = Some c \<longleftrightarrow>
      (\<exists>earlier later. spec_const_assignments ast = earlier @ (n, c) # later \<and>
                        n \<notin> fst ` set later)" for c
    by (simp add: get_const_vars_spec foldl_upd_snoc_iff)
  show "n \<in> dom (get_const_vars ast) \<longleftrightarrow> n \<in> fst ` set (spec_const_assignments ast)"
  proof
    assume "n \<in> dom (get_const_vars ast)"
    then obtain c where "get_const_vars ast n = Some c" by blast
    with last obtain earlier later
      where "spec_const_assignments ast = earlier @ (n, c) # later" by blast
    then have "(n, c) \<in> set (spec_const_assignments ast)" by simp
    then show "n \<in> fst ` set (spec_const_assignments ast)" by force
  next
    assume "n \<in> fst ` set (spec_const_assignments ast)"
    then have "\<exists>p \<in> set (spec_const_assignments ast). fst p = n" by auto
    from split_list_last_prop [OF this] obtain earlier p later
      where "spec_const_assignments ast = earlier @ p # later" "fst p = n"
        "\<forall>q \<in> set later. fst q \<noteq> n" by blast
    then have "spec_const_assignments ast = earlier @ (n, snd p) # later \<and>
               n \<notin> fst ` set later" by auto
    with last have "get_const_vars ast n = Some (snd p)" by blast
    then show "n \<in> dom (get_const_vars ast)" by blast
  qed
qed

theorem get_const_vars_last_assignment_witness:
  "get_const_vars twice_assigned ''draft'' = Some (PBool False)"
proof -
  have "spec_const_assignments twice_assigned =
          [(''draft'', PBool True)] @ (''draft'', PBool False) # [] \<and>
        ''draft'' \<notin> fst ` set ([] :: (string \<times> pyval) list)"
    by (simp add: twice_assigned_def spec_const_assignments_def template_nodes_def
        List.map_filter_simps)
  then have "\<exists>earlier later.
          spec_const_assignments twice_assigned = earlier @ (''draft'', PBool False) # later \<and>
          ''draft'' \<notin> fst ` set later"
    by (intro exI)
  then show ?thesis
    by (rule iffD2 [OF conjunct1 [OF get_const_vars_last_assignment]])
qed

text \<open>
  C3, as amended. A call of \<open>prepare\<close> for a path that is already pending changes
  nothing. A call for a path that is not pending, whose file is read and parsed, rebuilds
  the metadata from that parse: the current path is the path, the collected set-context
  pairs are those of the text just parsed, and the targets, the dependencies on
  referenced templates, the context dependencies and the contexts are registered with
  the host again; the filesystem is not touched.
\<close>

theorem prepare_rebuilds_unless_pending:
  "(generate_dict w path \<noteq> None \<longrightarrow> prepare env path w = Returned w) \<and>
   (generate_dict w path = None \<and> open_read env path = Inr text \<and>
    run_parse (env_parse env text) (w\<lparr>current_path := Some path, set_contexts := []\<rparr>)
      = (Inr ast, w2) \<longrightarrow>
    (\<exists>w'. prepare env path w = Returned w' \<and>
          current_path w' = Some path \<and>
          set_contexts w' = collected_pairs (tags (env_parse env text)) \<and>
          host_calls w' =
            host_calls w @
            registrations env path ast (collected_pairs (tags (env_parse env text))) \<and>
          fs_ops w' = fs_ops w))"
proof (intro conjI impI)
  assume "generate_dict w path \<noteq> None"
  then show "prepare env path w = Returned w" by (rule prepare_pending)
next
  assume "generate_dict w path = None \<and> open_read env path = Inr text \<and>
    run_parse (env_parse env text) (w\<lparr>current_path := Some path, set_contexts := []\<rparr>)
      = (Inr ast, w2)"
  then have "generate_dict w path = None" "open_read env path = Inr text"
    "run_parse (env_parse env text) (w\<lparr>current_path := Some path, set_contexts := []\<rparr>)
      = (Inr ast, w2)" by simp_all
  from prepare_parsed [OF this]
  show "\<exists>w'. prepare env path w = Returned w' \<and>
          current_path w' = Some path \<and>
          set_contexts w' = collected_pairs (tags (env_parse env text)) \<and>
          host_calls w' =
            host_calls w @
            registrations env path ast (collected_pairs (tags (env_parse env text))) \<and>
          fs_ops w' = fs_ops w"
    by simp
qed

theorem prepare_rebuilds_unless_pending_witness:
  "prepare edited_env ''src/index.html'' index_pending = Returned index_pending \<and>
   (\<exists>w'. prepare example_env ''src/index.html'' init_world = Returned w' \<and>
         current_path w' = Some ''src/index.html'' \<and>
         set_contexts w' = [(''year'', PInt 2014)] \<and>
         host_calls w' = host_calls index_pending)"
proof
  have "generate_dict index_pending ''src/index.html'' \<noteq> None"
    by (simp add: index_pending_def)
  then show "prepare edited_env ''src/index.html'' index_pending = Returned index_pending"
    by (rule mp [OF conjunct1 [OF prepare_rebuilds_unless_pending]])
  have "generate_dict init_world ''src/index.html'' = None \<and>
        open_read example_env ''src/index.html'' = Inr index_text \<and>
        run_parse (env_parse example_env index_text)
          (init_world\<lparr>current_path := Some ''src/index.html'', set_contexts := []\<rparr>) =
        (Inr index_ast, init_world\<lparr>current_path := Some ''src/index.html'',
                              set_contexts := [(''year'', PInt 2014)]\<rparr>)"
    using index_hyps by simp
  from mp [OF conjunct2 [OF prepare_rebuilds_unless_pending] this]
  obtain w' where "prepare example_env ''src/index.html'' init_world = Returned w'"
    and "current_path w' = Some ''src/index.html''"
    and "set_contexts w' = collected_pairs (tags (env_parse example_env index_text))"
    and "host_calls w' = host_calls init_world @
           registrations example_env ''src/index.html'' index_ast
             (collected_pairs (tags (env_parse example_env index_text)))"
    by blast
  then show "\<exists>w'. prepare example_env ''src/index.html'' init_world = Returned w' \<and>
         current_path w' = Some ''src/index.html'' \<and>
         set_contexts w' = [(''year'', PInt 2014)] \<and>
         host_calls w' = host_calls index_pending"
    by (simp add: index_collected index_registrations init_world_def)
qed

text \<open>
  The claim as written, for every call of \<open>prepare\<close>, fails on a pending path: the page
  of the example is prepared, its file is then overwritten, and the second \<open>prepare\<close>
  neither parses the new text nor registers anything.
\<close>

theorem prepare_pending_not_rebuilt_counterexample:
  "prepare example_env ''src/index.html'' init_world = Returned index_pending \<and>
   open_read edited_env ''src/index.html'' = Inr a_text \<and>
   prepare edited_env ''src/index.html'' index_pending = Returned index_pending"
  by (simp add: prepare_index prepare_pending index_pending_def edited_env_def)

text \<open>
  C4, as amended. The set-context pairs are held in one dictionary of the processor,
  keyed by variable name, which \<open>prepare\<close> empties before it parses: after \<open>prepare\<close>
  has parsed the file of a path, the dictionary holds exactly the pairs of that file,
  whatever it held before, and what the host is given for the path with
  \<open>set_context(path, name, value)\<close> are exactly these pairs.
\<close>

theorem set_contexts_of_last_parsed_file:
  assumes "generate_dict w path = None"
    and "open_read env path = Inr text"
    and "run_parse (env_parse env text) (w\<lparr>current_path := Some path, set_contexts := []\<rparr>)
           = (Inr ast, w2)"
  shows "\<exists>w'. prepare env path w = Returned w' \<and>
           set_contexts w' = collected_pairs (tags (env_parse env text)) \<and>
           filter is_SetContext (drop (length (host_calls w)) (host_calls w')) =
             map (\<lambda>(n, v). SetContext path n v) (collected_pairs (tags (env_parse env text)))"
  using prepare_parsed [OF assms] by (simp add: filter_SetContext_registrations)

theorem set_contexts_of_last_parsed_file_witness:
  "set_contexts a_pending = [(''rank'', PInt 1)] \<and>
   (\<exists>w'. prepare example_env ''src/b.html'' a_pending = Returned w' \<and>
      set_contexts w' = [(''rank'', PInt 2)] \<and>
      filter is_SetContext (drop (length (host_calls a_pending)) (host_calls w')) =
        [SetContext ''src/b.html'' ''rank'' (PInt 2)])"
  using set_contexts_of_last_parsed_file [OF b_hyps]
  by (simp add: b_collected) (simp add: a_pending_def)

text \<open>
  The claim as written, that the pairs of two distinct paths are held separately, fails:
  after the two pages that set \<open>rank\<close> have been prepared one after the other, the
  processor holds the pair of the second only.
\<close>

theorem set_contexts_overwritten_counterexample:
  "prepare example_env ''src/a.html'' init_world = Returned a_pending \<and>
   set_contexts a_pending = [(''rank'', PInt 1)] \<and>
   set_contexts (world_of (prepare example_env ''src/b.html'' a_pending)) = [(''rank'', PInt 2)]"
  using prepare_parsed [OF b_hyps]
  by (simp add: prepare_a b_collected) (simp add: a_pending_def)

text \<open>
  C5. \<open>prepare(path)\<close> leaves the pending entry of every other path as it was, and an
  entry it inserts for the path pairs the path's target with the template just parsed
  from its file; a \<open>generate(path)\<close> that returns removes the entry of the path, and
  only that one. The pending map is a dictionary, so it has at most one entry for a path.
\<close>

theorem pending_entry_inserted_then_removed:
  "(\<forall>q. q \<noteq> path \<longrightarrow>
        generate_dict (world_of (prepare env path w)) q = generate_dict w q) \<and>
   (generate_dict w path = None \<and>
    generate_dict (world_of (prepare env path w)) path = Some (target, ast) \<longrightarrow>
      target = target_path env path \<and>
      (\<exists>text w2. open_read env path = Inr text \<and>
         run_parse (env_parse env text) (w\<lparr>current_path := Some path, set_contexts := []\<rparr>)
           = (Inr ast, w2))) \<and>
   (generate env path w = Returned w' \<longrightarrow>
      generate_dict w' path = None \<and>
      (\<forall>q. q \<noteq> path \<longrightarrow> generate_dict w' q = generate_dict w q))"
proof (intro conjI impI allI)
  fix q assume "q \<noteq> path"
  then show "generate_dict (world_of (prepare env path w)) q = generate_dict w q"
    by (rule prepare_other_paths)
next
  assume a: "generate_dict w path = None \<and>
    generate_dict (world_of (prepare env path w)) path = Some (target, ast)"
  from prepare_entry [of w path env target ast] a
  show "target = target_path env path" by simp
  from prepare_entry [of w path env target ast] a
  show "\<exists>text w2. open_read env path = Inr text \<and>
         run_parse (env_parse env text) (w\<lparr>current_path := Some path, set_contexts := []\<rparr>)
           = (Inr ast, w2)" by simp
next
  assume "generate env path w = Returned w'"
  then show "generate_dict w' path = None" by (simp add: generate_Returned)
next
  fix q assume "generate env path w = Returned w'" "q \<noteq> path"
  then show "generate_dict w' q = generate_dict w q" by (simp add: generate_Returned)
qed

theorem pending_entry_inserted_then_removed_witness:
  "generate_dict (world_of (prepare example_env ''src/index.html'' init_world)) ''src/a.html'' =
     None \<and>
   generate_dict index_pending ''src/index.html'' = Some (''build/index.html'', index_ast) \<and>
   ''build/index.html'' = target_path example_env ''src/index.html'' \<and>
   generate_dict index_generated ''src/index.html'' = None"
proof -
  note inst = pending_entry_inserted_then_removed
    [where path = "''src/index.html''" and env = example_env and w = init_world
       and target = "''build/index.html''" and ast = index_ast]
  note inst' = pending_entry_inserted_then_removed
    [where path = "''src/index.html''" and env = example_env and w = index_pending
       and w' = index_generated]
  have e: "generate_dict index_pending ''src/index.html'' = Some (''build/index.html'', index_ast)"
    by (simp add: index_pending_def)
  have "''src/a.html'' \<noteq> ''src/index.html''" by simp
  from mp [OF spec [OF conjunct1 [OF inst]] this]
  have 1: "generate_dict (world_of (prepare example_env ''src/index.html'' init_world))
                  ''src/a.html'' = None"
    by (simp add: init_world_def)
  have "generate_dict init_world ''src/index.html'' = None \<and>
        generate_dict (world_of (prepare example_env ''src/index.html'' init_world))
          ''src/index.html'' = Some (''build/index.html'', index_ast)"
    by (simp add: prepare_index e) (simp add: init_world_def)
  from mp [OF conjunct1 [OF conjunct2 [OF inst]] this]
  have 2: "''build/index.html'' = target_path example_env ''src/index.html''" by (rule conjunct1)
  from mp [OF conjunct2 [OF conjunct2 [OF inst']] generate_index]
  have 3: "generate_dict index_generated ''src/index.html'' = None" by (rule conjunct1)
  from 1 e 2 3 show ?thesis by (intro conjI)
qed

text \<open>
  C6. When \<open>prepare\<close> is called for a path that is not pending and its file is read and
  parsed, the calls it makes to the host are, in this order: set the single target, set
  the dependencies to the templates the syntax tree refers to, clear the context
  dependencies, add one for each extracted context request, remove the contexts, set one
  for each pair collected during parsing.
\<close>

theorem prepare_registers_in_order:
  assumes "generate_dict w path = None"
    and "open_read env path = Inr text"
    and "run_parse (env_parse env text) (w\<lparr>current_path := Some path, set_contexts := []\<rparr>)
           = (Inr ast, w2)"
  shows "\<exists>w'. prepare env path w = Returned w' \<and>
           host_calls w' =
             host_calls w
             @ [SetTargets path [target_path env path],
                SetDependencies path
                  (map (app_source_path env) (find_referenced_templates env ast)),
                ClearDependencies path]
             @ map (\<lambda>(n, v). AddDependency path n v) (get_context_requests ast)
             @ [RemoveContext path]
             @ map (\<lambda>(n, v). SetContext path n v) (set_contexts w2)"
proof -
  have "set_contexts w2 = collected_pairs (tags (env_parse env text))"
    using run_parse_collect [OF assms(3)] by simp
  then show ?thesis
    using prepare_parsed [OF assms]
    by (simp add: registrations_def target_path_def get_context_requests_spec)
qed

theorem prepare_registers_in_order_witness:
  "\<exists>w'. prepare example_env ''src/index.html'' init_world = Returned w' \<and>
     host_calls w' =
       [SetTargets ''src/index.html'' [''build/index.html''],
        SetDependencies ''src/index.html'' [],
        ClearDependencies ''src/index.html'',
        AddDependency ''src/index.html'' (PInt 7) (PInt 8),
        RemoveContext ''src/index.html'',
        SetContext ''src/index.html'' ''year'' (PInt 2014)]"
  using prepare_registers_in_order [OF index_hyps]
  by (simp add: get_context_requests_spec index_requests init_world_def example_env_def
      target_path_def)

text \<open>
  C7, as amended. For a pending path: when the file is read and compiled, the directory
  created, the target opened, the template rendered and the text written without an
  error, \<open>generate\<close> creates the parent directory of the recorded target, writes there
  the text rendered with the context dictionary, and removes the path from the pending
  map; when it raises, the path is still pending. The context dictionary holds
  \<open>urls\<close>, \<open>size\<close> and \<open>modified\<close>, and \<open>url\<close> exactly when the file has one target,
  if the host has a record of the source file, and is empty if it has none.
\<close>

theorem generate_renders_writes_then_removes:
  assumes "generate_dict w path = Some (target, ast)"
  shows
    "(open_read env path = Inr text \<and>
      run_parse (env_from_string env text) w = (Inr template, w1) \<and>
      os_makedirs env (dirname target) = None \<and>
      open_write env target = None \<and>
      run_render (template (context_dict env path))
        (fs_op (OpenW target) (fs_op (Makedirs (dirname target)) w1)) = (Inr out, w4) \<and>
      fh_write env target out = None \<longrightarrow>
        generate env path w =
          Returned (w\<lparr>set_contexts := set_contexts w4,
                      fs_ops := fs_ops w @
                        [Makedirs (dirname target), OpenW target, Write target out],
                      generate_dict := (generate_dict w)(path := None)\<rparr>)) \<and>
     (generate env path w = Raised e w' \<longrightarrow> generate_dict w' path = Some (target, ast)) \<and>
     (get_source env path = Some source \<longrightarrow>
        map_of (context_dict env path) ''urls'' =
          Some (StrList (map (\<lambda>t. CHR ''/'' # app_relative_path env t) (get_targets env path))) \<and>
        map_of (context_dict env path) ''size'' = Some (Val (source_size source)) \<and>
        map_of (context_dict env path) ''modified'' = Some (Val (source_modified source)) \<and>
        map_of (context_dict env path) ''url'' =
          (if length (get_targets env path) = 1
           then Some (Str (CHR ''/'' # app_relative_path env (get_targets env path ! 0)))
           else None)) \<and>
     (get_source env path = None \<longrightarrow> context_dict env path = [])"
proof (intro conjI impI)
  assume "open_read env path = Inr text \<and>
      run_parse (env_from_string env text) w = (Inr template, w1) \<and>
      os_makedirs env (dirname target) = None \<and>
      open_write env target = None \<and>
      run_render (template (context_dict env path))
        (fs_op (OpenW target) (fs_op (Makedirs (dirname target)) w1)) = (Inr out, w4) \<and>
      fh_write env target out = None"
  then have h: "open_read env path = Inr text"
    "run_parse (env_from_string env text) w = (Inr template, w1)"
    "os_makedirs env (dirname target) = None"
    "open_write env target = None"
    "run_render (template (context_dict env path))
        (fs_op (OpenW target) (fs_op (Makedirs (dirname target)) w1)) = (Inr out, w4)"
    "fh_write env target out = None"
    by simp_all
  show "generate env path w =
          Returned (w\<lparr>set_contexts := set_contexts w4,
                      fs_ops := fs_ops w @
                        [Makedirs (dirname target), OpenW target, Write target out],
                      generate_dict := (generate_dict w)(path := None)\<rparr>)"
    by (rule generate_written [OF assms h])
next
  assume "generate env path w = Raised e w'"
  then show "generate_dict w' path = Some (target, ast)"
    using assms by (simp add: generate_Raised)
next
  assume s: "get_source env path = Some source"
  show "map_of (context_dict env path) ''urls'' =
          Some (StrList (map (\<lambda>t. CHR ''/'' # app_relative_path env t) (get_targets env path)))"
    by (rule context_dict_known(1) [OF s])
  show "map_of (context_dict env path) ''size'' = Some (Val (source_size source))"
    by (rule context_dict_known(2) [OF s])
  show "map_of (context_dict env path) ''modified'' = Some (Val (source_modified source))"
    by (rule context_dict_known(3) [OF s])
  show "map_of (context_dict env path) ''url'' =
          (if length (get_targets env path) = 1
           then Some (Str (CHR ''/'' # app_relative_path env (get_targets env path ! 0)))
           else None)"
    by (rule context_dict_known(4) [OF s])
next
  assume "get_source env path = None"
  then show "context_dict env path = []" by (simp add: context_dict_def)
qed

theorem generate_renders_writes_then_removes_witness:
  "generate example_env ''src/index.html'' index_pending =
     Returned (index_pending
       \<lparr>generate_dict := Map.empty,
        fs_ops := [Makedirs ''build'', OpenW ''build/index.html'',
                   Write ''build/index.html'' ''urlurlssizemodified'']\<rparr>) \<and>
   generate_dict (world_of (generate readonly_env ''src/index.html'' index_pending))
     ''src/index.html'' = Some (''build/index.html'', index_ast) \<and>
   map_of (context_dict example_env ''src/index.html'') ''urls'' =
     Some (StrList [''/index.html'']) \<and>
   map_of (context_dict example_env ''src/index.html'') ''url'' = Some (Str ''/index.html'') \<and>
   context_dict unknown_env ''src/index.html'' = []"
proof -
  let ?w3 = "fs_op (OpenW ''build/index.html'')
               (fs_op (Makedirs (dirname ''build/index.html'')) index_pending)"
  have run: "open_read example_env ''src/index.html'' = Inr index_text \<and>
      run_parse (env_from_string example_env index_text) index_pending =
        (Inr (\<lambda>c. \<lparr>loaded_tags = [], rendered = Inr (concat (map fst c))\<rparr>), index_pending) \<and>
      os_makedirs example_env (dirname ''build/index.html'') = None \<and>
      open_write example_env ''build/index.html'' = None \<and>
      run_render ((\<lambda>c. \<lparr>loaded_tags = [], rendered = Inr (concat (map fst c))\<rparr>)
                    (context_dict example_env ''src/index.html'')) ?w3 =
        (Inr ''urlurlssizemodified'', ?w3) \<and>
      fh_write example_env ''build/index.html'' ''urlurlssizemodified'' = None"
    by (simp add: example_defs run_parse_def run_render_def SetContextExtension_parse_def
        add_set_context_def index_pending_def context_dict_def)
  note ok = generate_renders_writes_then_removes [OF index_entry,
      where env = example_env and e = OSError and w' = index_pending
        and source = "\<lparr>source_size = PInt 52, source_modified = PInt 1400000000\<rparr>"]
  note ro = generate_renders_writes_then_removes [OF index_entry,
      where env = readonly_env and e = OSError and w' = index_pending]
  note un = generate_renders_writes_then_removes [OF index_entry, where env = unknown_env]
  from mp [OF conjunct1 [OF ok] run]
  have 1: "generate example_env ''src/index.html'' index_pending =
     Returned (index_pending
       \<lparr>generate_dict := Map.empty,
        fs_ops := [Makedirs ''build'', OpenW ''build/index.html'',
                   Write ''build/index.html'' ''urlurlssizemodified'']\<rparr>)"
    by (simp add: fs_op_def index_pending_def dirname_def)
  from mp [OF conjunct1 [OF conjunct2 [OF ro]] generate_index_readonly]
  have 2: "generate_dict (world_of (generate readonly_env ''src/index.html'' index_pending))
     ''src/index.html'' = Some (''build/index.html'', index_ast)"
    by (simp add: generate_index_readonly)
  have "get_source example_env ''src/index.html'' =
          Some \<lparr>source_size = PInt 52, source_modified = PInt 1400000000\<rparr>"
    by (simp add: example_env_def)
  from mp [OF conjunct1 [OF conjunct2 [OF conjunct2 [OF ok]]] this]
  have 3: "map_of (context_dict example_env ''src/index.html'') ''urls'' =
             Some (StrList [''/index.html'']) \<and>
           map_of (context_dict example_env ''src/index.html'') ''url'' =
             Some (Str ''/index.html'')"
    by (simp add: example_env_def)
  have "get_source unknown_env ''src/index.html'' = None"
    by (simp add: unknown_env_def example_env_def)
  from mp [OF conjunct2 [OF conjunct2 [OF conjunct2 [OF un]]] this]
  have 4: "context_dict unknown_env ''src/index.html'' = []" .
  from 1 2 3 4 show ?thesis by simp
qed

text \<open>
  The claim as written, for every pending path, fails where the host has no record of
  the source file: the page is generated from an empty context, as the written text shows.
\<close>

theorem generate_without_source_counterexample:
  "generate_dict index_pending ''src/index.html'' = Some (''build/index.html'', index_ast) \<and>
   get_source unknown_env ''src/index.html'' = None \<and>
   context_dict unknown_env ''src/index.html'' = [] \<and>
   generate unknown_env ''src/index.html'' index_pending =
     Returned (index_pending
       \<lparr>generate_dict := Map.empty,
        fs_ops := [Makedirs ''build'', OpenW ''build/index.html'',
                   Write ''build/index.html'' []]\<rparr>)"
  by (simp add: generate_index_unknown)
     (simp add: index_pending_def context_dict_def unknown_env_def example_env_def)

text \<open>
  C8. If the template that \<open>prepare\<close> parses for a path that was not pending has a
  constant assignment of a true value to \<open>template_only\<close>, and every later constant
  assignment to that name has a true value as well, then \<open>prepare\<close> registers the
  file's metadata with the host and leaves the pending map as it was: the path is not
  pending, and \<open>generate\<close> for it returns at once, in any environment, without writing.
\<close>

theorem template_only_never_generated:
  assumes "generate_dict w path = None"
    and "open_read env path = Inr text"
    and "run_parse (env_parse env text) (w\<lparr>current_path := Some path, set_contexts := []\<rparr>)
           = (Inr ast, w2)"
    and "spec_const_assignments ast = earlier @ (''template_only'', c) # later"
    and "truthy c"
    and "\<forall>(n, v) \<in> set later. n = ''template_only'' \<longrightarrow> truthy v"
  shows "\<exists>w'. prepare env path w = Returned w' \<and>
           host_calls w' = host_calls w @ registrations env path ast (set_contexts w') \<and>
           generate_dict w' = generate_dict w \<and>
           generate_dict w' path = None \<and>
           (\<forall>env'. generate env' path w' = Returned w')"
proof -
  from last_template_only [OF assms(4-6)] obtain c'
    where "get_const_vars ast ''template_only'' = Some c'" and "truthy c'" by blast
  with prepare_parsed [OF assms(1-3)]
  have p: "prepare env path w =
     Returned (w\<lparr>current_path := Some path,
                 set_contexts := collected_pairs (tags (env_parse env text)),
                 host_calls := host_calls w @
                   registrations env path ast (collected_pairs (tags (env_parse env text))),
                 generate_dict := generate_dict w\<rparr>)"
    (is "_ = Returned ?w'")
    by simp
  have "generate_dict ?w' path = None" using assms(1) by simp
  then have "\<forall>env'. generate env' path ?w' = Returned ?w'"
    by (simp add: generate_not_pending)
  with p assms(1) show ?thesis by simp
qed

theorem template_only_never_generated_witness:
  "\<exists>w'. prepare example_env ''src/base.html'' init_world = Returned w' \<and>
     host_calls w' =
       [SetTargets ''src/base.html'' [''build/base.html''],
        SetDependencies ''src/base.html'' [],
        ClearDependencies ''src/base.html'',
        RemoveContext ''src/base.html''] \<and>
     generate_dict w' ''src/base.html'' = None \<and>
     generate example_env ''src/base.html'' w' = Returned w'"
proof -
  have a: "spec_const_assignments base_ast = [] @ (''template_only'', PBool True) # []"
    by (simp add: spec_const_assignments_def template_nodes_def base_ast_def
        List.map_filter_simps)
  have t: "truthy (PBool True)" by simp
  have l: "\<forall>(n, v) \<in> set ([] :: (string \<times> pyval) list). n = ''template_only'' \<longrightarrow> truthy v"
    by simp
  from template_only_never_generated [OF base_hyps a t l]
  obtain w' where r: "prepare example_env ''src/base.html'' init_world = Returned w'"
    and h: "host_calls w' = host_calls init_world @
              registrations example_env ''src/base.html'' base_ast (set_contexts w')"
    and d: "generate_dict w' ''src/base.html'' = None"
    and g: "\<forall>env'. generate env' ''src/base.html'' w' = Returned w'"
    by blast
  from prepare_parsed [OF base_hyps] r
  have "set_contexts w' = collected_pairs (tags (env_parse example_env base_text))" by auto
  then have "set_contexts w' = []"
    by (simp add: collected_pairs_def List.map_filter_simps example_defs)
  with h have "host_calls w' =
       [SetTargets ''src/base.html'' [''build/base.html''],
        SetDependencies ''src/base.html'' [],
        ClearDependencies ''src/base.html'',
        RemoveContext ''src/base.html'']"
    by (simp add: registrations_def spec_context_requests_def template_nodes_def base_ast_def
        List.map_filter_simps init_world_def example_env_def)
  with r d g show ?thesis by simp
qed

text \<open>
  C9. For a path that is not pending, \<open>generate\<close> returns with the processor, the
  host's call record and the filesystem unchanged; so after a \<open>generate\<close> that returned,
  a second \<open>generate\<close> for the same path changes nothing.
\<close>

theorem generate_not_pending_no_effect:
  "(generate_dict w path = None \<longrightarrow> generate env path w = Returned w) \<and>
   (generate env path w = Returned w' \<longrightarrow> generate env' path w' = Returned w')"
proof (intro conjI impI)
  assume "generate_dict w path = None"
  then show "generate env path w = Returned w" by (rule generate_not_pending)
next
  assume "generate env path w = Returned w'"
  then have "generate_dict w' path = None" by (simp add: generate_Returned)
  then show "generate env' path w' = Returned w'" by (rule generate_not_pending)
qed

theorem generate_not_pending_no_effect_witness:
  "generate example_env ''src/index.html'' init_world = Returned init_world \<and>
   generate edited_env ''src/index.html'' index_generated = Returned index_generated"
proof
  have "generate_dict init_world ''src/index.html'' = None" by (simp add: init_world_def)
  then show "generate example_env ''src/index.html'' init_world = Returned init_world"
    by (rule mp [OF conjunct1 [OF generate_not_pending_no_effect]])
  show "generate edited_env ''src/index.html'' index_generated = Returned index_generated"
    using generate_index by (rule mp [OF conjunct2 [OF generate_not_pending_no_effect]])
qed

text \<open>
  C10. For every path, \<open>can_process(path)\<close> returns true if and only if the path ends
  with the suffix \<open>.html\<close>, that is, if and only if it is some stem followed by
  \<open>.html\<close>.
\<close>

theorem can_process_iff_html_suffix:
  "can_process path \<longleftrightarrow> (\<exists>stem. path = stem @ ''.html'')"
proof
  assume "can_process path"
  then have "length ''.html'' \<le> length path"
    and "drop (length path - length ''.html'') path = ''.html''"
    by (simp_all add: can_process_def endswith_def)
  then have "path = take (length path - length ''.html'') path @ ''.html''"
    by (metis append_take_drop_id)
  then show "\<exists>stem. path = stem @ ''.html''" by (intro exI)
next
  assume "\<exists>stem. path = stem @ ''.html''"
  then obtain stem where "path = stem @ ''.html''" ..
  then show "can_process path"
    by (simp add: can_process_def endswith_def)
qed

theorem can_process_iff_html_suffix_witness:
  "can_process ''src/index.html''"
proof -
  have "''src/index.html'' = ''src/index'' @ ''.html''" by simp
  then have "\<exists>stem. ''src/index.html'' = stem @ ''.html''" by (intro exI)
  then show ?thesis
    by (rule iffD2 [OF can_process_iff_html_suffix])
qed

end
